theory Spec2Isabelle
  imports Main
begin

section \<open>Python string operations used by the dashboard\<close>

text \<open>
  Python \<open>str\<close> values are modelled as \<open>string\<close> (lists of characters).  The model
  covers ASCII text: case conversion acts on the letters \<open>a\<close>..\<open>z\<close> and \<open>A\<close>..\<open>Z\<close>, and
  the white space of \<open>str.strip()\<close> and \<open>str.split()\<close> is the ASCII white space of
  \<open>str.isspace()\<close> (code points 9 to 13, 28 to 31 and 32).
\<close>

definition newline :: char where
  "newline = CHR 0x0A"

definition py_isspace :: "char \<Rightarrow> bool" where
  "py_isspace c = (c \<in> set [CHR 0x09, CHR 0x0A, CHR 0x0B, CHR 0x0C, CHR 0x0D,
                              CHR 0x1C, CHR 0x1D, CHR 0x1E, CHR 0x1F, CHR 0x20])"

definition ascii_lowercase :: string where
  "ascii_lowercase = ''abcdefghijklmnopqrstuvwxyz''"

definition ascii_uppercase :: string where
  "ascii_uppercase = ''ABCDEFGHIJKLMNOPQRSTUVWXYZ''"

definition upper_char :: "char \<Rightarrow> char" where
  "upper_char c = (case map_of (zip ascii_lowercase ascii_uppercase) c of
                     Some u \<Rightarrow> u | None \<Rightarrow> c)"

definition lower_char :: "char \<Rightarrow> char" where
  "lower_char c = (case map_of (zip ascii_uppercase ascii_lowercase) c of
                     Some l \<Rightarrow> l | None \<Rightarrow> c)"

text \<open>\<open>s.upper()\<close> and \<open>s.lower()\<close>.\<close>

definition str_upper :: "string \<Rightarrow> string" where
  "str_upper s = map upper_char s"

definition str_lower :: "string \<Rightarrow> string" where
  "str_lower s = map lower_char s"

text \<open>\<open>s.lstrip()\<close>, \<open>s.rstrip()\<close>, \<open>s.strip()\<close> and \<open>s.rstrip(';')\<close>.\<close>

definition str_lstrip :: "string \<Rightarrow> string" where
  "str_lstrip s = dropWhile py_isspace s"

definition str_rstrip :: "string \<Rightarrow> string" where
  "str_rstrip s = rev (dropWhile py_isspace (rev s))"

definition str_strip :: "string \<Rightarrow> string" where
  "str_strip s = str_rstrip (str_lstrip s)"

definition str_rstrip_chars :: "string \<Rightarrow> string \<Rightarrow> string" where
  "str_rstrip_chars s chars = rev (dropWhile (\<lambda>c. c \<in> set chars) (rev s))"

text \<open>\<open>s.startswith(p)\<close>.\<close>

fun str_startswith :: "string \<Rightarrow> string \<Rightarrow> bool" where
  "str_startswith s [] = True"
| "str_startswith [] (p # ps) = False"
| "str_startswith (c # cs) (p # ps) = (c = p \<and> str_startswith cs ps)"

text \<open>\<open>sub in s\<close>: the substring test.\<close>

fun str_in :: "string \<Rightarrow> string \<Rightarrow> bool" where
  "str_in sub [] = (sub = [])"
| "str_in sub (c # cs) = (str_startswith (c # cs) sub \<or> str_in sub cs)"

text \<open>
  \<open>s.split()\<close> without argument: the maximal runs of non-space characters.  The first
  argument of \<open>words_from\<close> is the word read so far.
\<close>

fun words_from :: "string \<Rightarrow> string \<Rightarrow> string list" where
  "words_from cur [] = (if cur = [] then [] else [cur])"
| "words_from cur (c # cs) =
     (if py_isspace c then (if cur = [] then words_from [] cs else cur # words_from [] cs)
      else words_from (cur @ [c]) cs)"

definition str_split :: "string \<Rightarrow> string list" where
  "str_split s = words_from [] s"

text \<open>\<open>s.split(d)\<close> for a one-character separator: every separator cuts, empty pieces stay.\<close>

fun str_split_on :: "char \<Rightarrow> string \<Rightarrow> string list" where
  "str_split_on d [] = [[]]"
| "str_split_on d (c # cs) =
     (if c = d then [] # str_split_on d cs
      else (case str_split_on d cs of
              [] \<Rightarrow> [[c]]
            | l # ls \<Rightarrow> (c # l) # ls))"

text \<open>\<open>sep.join(xs)\<close>.\<close>

fun str_join :: "string \<Rightarrow> string list \<Rightarrow> string" where
  "str_join sep [] = []"
| "str_join sep [x] = x"
| "str_join sep (x # y # ys) = x @ sep @ str_join sep (y # ys)"

text \<open>
  \<open>s.replace(old, new)\<close> for a non-empty \<open>old\<close>: the occurrences are replaced from left
  to right, without overlap.  \<open>replace_from k\<close> still has \<open>k\<close> characters of a replaced
  occurrence to skip.
\<close>

fun replace_from :: "nat \<Rightarrow> string \<Rightarrow> string \<Rightarrow> string \<Rightarrow> string" where
  "replace_from k old new [] = []"
| "replace_from (Suc k) old new (c # cs) = replace_from k old new cs"
| "replace_from 0 old new (c # cs) =
     (if old \<noteq> [] \<and> str_startswith (c # cs) old
      then new @ replace_from (length old - 1) old new cs
      else c # replace_from 0 old new cs)"

definition str_replace :: "string \<Rightarrow> string \<Rightarrow> string \<Rightarrow> string" where
  "str_replace s old new = replace_from 0 old new s"

section \<open>Regular-expression searches of the source\<close>

text \<open>
  \<open>re.search(A + '.*' + B, s)\<close> for literal words \<open>A\<close> and \<open>B\<close>, without \<open>re.DOTALL\<close>: the
  dot matches every character but the line feed.  \<open>gap_then s b\<close> says that \<open>.*B\<close> matches
  at the start of \<open>s\<close>.
\<close>

fun gap_then :: "string \<Rightarrow> string \<Rightarrow> bool" where
  "gap_then [] b = (b = [])"
| "gap_then (c # cs) b = (str_startswith (c # cs) b \<or> (c \<noteq> newline \<and> gap_then cs b))"

fun re_search_gap :: "string \<Rightarrow> string \<Rightarrow> string \<Rightarrow> bool" where
  "re_search_gap a b [] = (a = [] \<and> b = [])"
| "re_search_gap a b (c # cs) =
     ((str_startswith (c # cs) a \<and> gap_then (drop (length a) (c # cs)) b)
      \<or> re_search_gap a b cs)"

section \<open>The safety filter (database/queries.py)\<close>

definition safe_starts :: "string list" where
  "safe_starts = [''SELECT'', ''WITH'', ''SHOW'', ''DESCRIBE'', ''EXPLAIN'']"

definition dangerous_keywords :: "string list" where
  "dangerous_keywords =
     [''DROP'', ''DELETE'', ''UPDATE'', ''INSERT'', ''ALTER'', ''CREATE'',
      ''TRUNCATE'', ''GRANT'', ''REVOKE'', ''EXEC'', ''EXECUTE'']"

text \<open>
  The four patterns \<open>--\<close>, \<open>/\*\<close>, \<open>;.*SELECT\<close> and \<open>UNION.*SELECT\<close>, each as the search
  \<open>re.search(pattern, sql_upper)\<close> it stands for.
\<close>

definition suspicious_patterns :: "(string \<Rightarrow> bool) list" where
  "suspicious_patterns =
     [str_in ''--'', str_in ''/*'', re_search_gap '';'' ''SELECT'',
      re_search_gap ''UNION'' ''SELECT'']"

definition is_safe_query :: "string \<Rightarrow> bool" where
  "is_safe_query sql =
     (let sql_upper = str_strip (str_upper sql) in
      if \<not> list_ex (\<lambda>keyword. str_startswith sql_upper keyword) safe_starts then False
      else if list_ex (\<lambda>keyword. str_in keyword sql_upper) dangerous_keywords then False
      else if list_ex (\<lambda>pattern. pattern sql_upper) suspicious_patterns then False
      else True)"

section \<open>Visualization-kind normalization (ai/response\_parser.py)\<close>

definition valid_types :: "string list" where
  "valid_types =
     [''bar_chart'', ''line_chart'', ''pie_chart'', ''scatter_plot'',
      ''histogram'', ''box_plot'', ''heatmap'', ''table'']"

text \<open>The dictionary \<open>type_mappings\<close>, in the order of its entries: the loop visits them so.\<close>

definition type_mappings :: "(string \<times> string) list" where
  "type_mappings =
     [(''bar'', ''bar_chart''), (''column'', ''bar_chart''),
      (''line'', ''line_chart''), (''trend'', ''line_chart''),
      (''pie'', ''pie_chart''), (''donut'', ''pie_chart''),
      (''scatter'', ''scatter_plot''), (''scatterplot'', ''scatter_plot''),
      (''hist'', ''histogram''), (''distribution'', ''histogram''),
      (''box'', ''box_plot''), (''boxplot'', ''box_plot''),
      (''heat'', ''heatmap''), (''correlation'', ''heatmap'')]"

definition validate_visualization_type :: "string \<Rightarrow> string" where
  "validate_visualization_type viz_type =
     (let viz_type = str_strip (str_lower viz_type) in
      if viz_type \<in> set valid_types then viz_type
      else (case find (\<lambda>(key, value). str_in key viz_type) type_mappings of
              Some (key, value) \<Rightarrow> value
            | None \<Rightarrow> ''bar_chart''))"

section \<open>Question validation (ai/openai\_client.py)\<close>

definition problematic_keywords :: "string list" where
  "problematic_keywords = [''hack'', ''exploit'', ''bypass'', ''inject'']"

text \<open>
  \<open>validate_query_generation\<close> returns the pair \<open>(is_valid, message)\<close>.  A question that
  is \<open>None\<close> takes the branch of the empty string (\<open>not question\<close>).
\<close>

definition validate_query_generation :: "string \<Rightarrow> bool \<times> string" where
  "validate_query_generation question =
     (if question = [] \<or> length (str_strip question) < 5
      then (False, ''Question is too short or empty'')
      else if length question > 500
      then (False, ''Question is too long (max 500 characters)'')
      else (case find (\<lambda>keyword. str_in keyword (str_lower question)) problematic_keywords of
              Some keyword \<Rightarrow> (False, ''Question contains inappropriate content: '' @ keyword)
            | None \<Rightarrow> (True, ''Question is valid for processing'')))"

section \<open>Prompt builder (ai/prompt\_manager.py)\<close>

text \<open>
  The dictionary \<open>data_types\<close> is an association list in insertion order (its keys are
  distinct, so its length is \<open>len(data_types)\<close>); \<open>None\<close> is a possible argument.
\<close>

type_synonym data_types = "(string \<times> string) list option"

definition dict_items :: "data_types \<Rightarrow> (string \<times> string) list" where
  "dict_items data_types = (case data_types of None \<Rightarrow> [] | Some d \<Rightarrow> d)"

definition get_sample_queries :: "string \<Rightarrow> string list \<Rightarrow> data_types \<Rightarrow> string list" where
  "get_sample_queries table_name columns data_types =
     (let numeric_cols = [col. (col, dtype) \<leftarrow> dict_items data_types,
                               dtype \<in> set [''integer'', ''numeric'']];
          text_cols = [col. (col, dtype) \<leftarrow> dict_items data_types, dtype = ''text''];
          date_cols = [col. (col, dtype) \<leftarrow> dict_items data_types, dtype = ''datetime''];
          queries = [''Show me a sample of the data'',
                     ''What are the column statistics?'',
                     ''How many total records are there?''];
          queries = queries @
            (if text_cols \<noteq> []
             then [''Show distribution of '' @ hd text_cols,
                   ''What are the most common values in '' @ hd text_cols @ ''?'']
             else []);
          queries = queries @
            (if numeric_cols \<noteq> []
             then [''Show statistics for '' @ hd numeric_cols,
                   ''What's the average '' @ hd numeric_cols @ ''?'']
             else []);
          queries = queries @
            (if length numeric_cols \<ge> 2
             then [''Compare '' @ numeric_cols ! 0 @ '' and '' @ numeric_cols ! 1]
             else []);
          queries = queries @
            (if text_cols \<noteq> [] \<and> numeric_cols \<noteq> []
             then [''Show '' @ hd numeric_cols @ '' by '' @ hd text_cols]
             else []);
          queries = queries @
            (if date_cols \<noteq> []
             then [''Show trends over '' @ hd date_cols,
                   ''What's the date range in the data?'']
             else [])
      in take 8 queries)"

text \<open>
  \<open>validate_prompt_parameters\<close> returns the pair \<open>(is_valid, message)\<close>.  A table name or
  a column list that is \<open>None\<close> takes the branch of the empty one.
\<close>

definition validate_prompt_parameters ::
  "string \<Rightarrow> string list \<Rightarrow> data_types \<Rightarrow> bool \<times> string" where
  "validate_prompt_parameters table_name columns data_types =
     (if table_name = [] then (False, ''Table name is required'')
      else if columns = [] \<or> length columns = 0 then (False, ''At least one column is required'')
      else if length columns > 1000 then (False, ''Too many columns (max 1000)'')
      else if dict_items data_types \<noteq> [] \<and> length (dict_items data_types) \<noteq> length columns
      then (False, ''Data types count must match columns count'')
      else (True, ''Valid prompt parameters''))"

section \<open>Response parser (ai/response\_parser.py)\<close>

text \<open>
  The regular expressions of the parser are searched with \<open>re.IGNORECASE\<close>: a literal
  matches whatever the case of its letters.  \<open>\w\<close> is a letter, a digit or the underscore.
\<close>

fun str_startswith_ci :: "string \<Rightarrow> string \<Rightarrow> bool" where
  "str_startswith_ci s [] = True"
| "str_startswith_ci [] (p # ps) = False"
| "str_startswith_ci (c # cs) (p # ps) = (lower_char c = lower_char p \<and> str_startswith_ci cs ps)"

definition py_isword :: "char \<Rightarrow> bool" where
  "py_isword c = (c \<in> set ascii_lowercase \<or> c \<in> set ascii_uppercase
                    \<or> c \<in> set ''0123456789_'')"

text \<open>
  The first occurrence of a literal \<open>p\<close> in a text, with or without regard to case:
  \<open>find_first ci p text = Some (pre, rest)\<close> when \<open>text = pre @ rest\<close> and the occurrence
  starts \<open>rest\<close>.
\<close>

fun find_first :: "bool \<Rightarrow> string \<Rightarrow> string \<Rightarrow> (string \<times> string) option" where
  "find_first ci p [] = (if p = [] then Some ([], []) else None)"
| "find_first ci p (c # cs) =
     (if (if ci then str_startswith_ci (c # cs) p else str_startswith (c # cs) p)
      then Some ([], c # cs)
      else (case find_first ci p cs of
              None \<Rightarrow> None
            | Some (pre, rest) \<Rightarrow> Some (c # pre, rest)))"

text \<open>\<open>s.replace('```sql', '').replace('```', '')\<close>.\<close>

definition strip_fences :: "string \<Rightarrow> string" where
  "strip_fences s = str_replace (str_replace s ''```sql'' '''') ''```'' ''''"

text \<open>
  \<open>re.search(r'```sql\s*(.*?)\s*```', text, re.DOTALL | re.IGNORECASE)\<close>, as the value of
  \<open>group(1).strip()\<close>: the text between the first \<open>```sql\<close> and the first \<open>```\<close> after it,
  trimmed (the white space that \<open>\s*\<close> takes on either side is white space that
  \<open>strip()\<close> removes).
\<close>

definition fenced_sql_block :: "string \<Rightarrow> string option" where
  "fenced_sql_block text =
     (case find_first True ''```sql'' text of
        None \<Rightarrow> None
      | Some (pre, rest) \<Rightarrow>
          (case find_first False ''```'' (drop 6 rest) of
             None \<Rightarrow> None
           | Some (body, closing) \<Rightarrow> Some (str_strip body)))"

text \<open>
  \<open>re.search(r'SQL_QUERY:\s*(.*?)(?:\n|$)', text, re.IGNORECASE)\<close>, as \<open>group(1)\<close>: after the
  first \<open>SQL_QUERY:\<close>, \<open>\s*\<close> takes all the white space (line feeds too), and the group
  runs to the next line feed or to the end of the text.
\<close>

definition labelled_sql :: "string \<Rightarrow> string option" where
  "labelled_sql text =
     (case find_first True ''SQL_QUERY:'' text of
        None \<Rightarrow> None
      | Some (pre, rest) \<Rightarrow>
          Some (takeWhile (\<lambda>c. c \<noteq> newline) (dropWhile py_isspace (drop 10 rest))))"

text \<open>
  \<open>re.search(r'(SELECT.*?(?:;|$))', text, re.DOTALL | re.IGNORECASE)\<close>, as the value of
  \<open>group(1).strip()\<close>: from the first \<open>SELECT\<close> to the first semicolon after it, or to the
  end of the text when there is none (\<open>$\<close> also matches before a last line feed, which
  \<open>strip()\<close> removes anyway).
\<close>

definition select_statement :: "string \<Rightarrow> string option" where
  "select_statement text =
     (case find_first True ''SELECT'' text of
        None \<Rightarrow> None
      | Some (pre, rest) \<Rightarrow>
          (let tail = drop 6 rest in
           Some (str_strip (take 6 rest @ takeWhile (\<lambda>c. c \<noteq> CHR '';'') tail
                            @ (if CHR '';'' \<in> set tail then '';'' else '''')))))"

text \<open>
  \<open>re.search(r'\b(SELECT|WITH)\b.*', text, re.IGNORECASE | re.DOTALL)\<close>, as \<open>group(0)\<close>: the
  text from the first \<open>SELECT\<close> or \<open>WITH\<close> that stands as a word of its own.  The first
  argument of \<open>sql_like_from\<close> says whether the character before is a word character.
\<close>

definition keyword_at :: "string \<Rightarrow> string \<Rightarrow> bool" where
  "keyword_at s kw =
     (str_startswith_ci s kw
      \<and> (case drop (length kw) s of [] \<Rightarrow> True | d # ds \<Rightarrow> \<not> py_isword d))"

fun sql_like_from :: "bool \<Rightarrow> string \<Rightarrow> string option" where
  "sql_like_from prev [] = None"
| "sql_like_from prev (c # cs) =
     (if \<not> prev \<and> (keyword_at (c # cs) ''SELECT'' \<or> keyword_at (c # cs) ''WITH'')
      then Some (c # cs)
      else sql_like_from (py_isword c) cs)"

text \<open>\<open>if delimiter in sql_text: sql_text = sql_text.split(delimiter)[0]\<close>.\<close>

definition before_first :: "string \<Rightarrow> string \<Rightarrow> string" where
  "before_first delimiter sql_text =
     (case find_first False delimiter sql_text of
        None \<Rightarrow> sql_text
      | Some (pre, rest) \<Rightarrow> pre)"

definition delimiters :: "string list" where
  "delimiters = [[newline, newline], ''VIZ_TYPE:'', ''INSIGHTS:'', ''Explanation:'', ''Note:'']"

definition extract_sql_from_text :: "string \<Rightarrow> string" where
  "extract_sql_from_text text =
     (case fenced_sql_block text of
        Some sql \<Rightarrow> sql
      | None \<Rightarrow>
     (case labelled_sql text of
        Some sql_query \<Rightarrow> str_strip (strip_fences (str_strip sql_query))
      | None \<Rightarrow>
     (case select_statement text of
        Some sql_query \<Rightarrow> str_strip (str_rstrip_chars sql_query '';'')
      | None \<Rightarrow>
     (case sql_like_from False text of
        Some sql_text \<Rightarrow>
          str_rstrip_chars (str_strip (fold before_first delimiters sql_text)) '';''
      | None \<Rightarrow> ''''))))"

text \<open>
  \<open>re.search(r'(SELECT.*?)(?:\s*(?:VIZ_TYPE|VIZ_REASON|ALTERNATIVE|INSIGHTS|$))', sql,
  re.DOTALL | re.IGNORECASE)\<close>, as the value of \<open>group(1).strip()\<close>: from the first
  \<open>SELECT\<close> to the first of the four markers after it, or to the end of the text, trimmed.
\<close>

definition markers :: "string list" where
  "markers = [''VIZ_TYPE'', ''VIZ_REASON'', ''ALTERNATIVE'', ''INSIGHTS'']"

fun until_marker :: "string \<Rightarrow> string" where
  "until_marker [] = []"
| "until_marker (c # cs) =
     (if list_ex (str_startswith_ci (c # cs)) markers then [] else c # until_marker cs)"

definition embedded_select :: "string \<Rightarrow> string option" where
  "embedded_select sql =
     (case find_first True ''SELECT'' sql of
        None \<Rightarrow> None
      | Some (pre, rest) \<Rightarrow> Some (str_strip (take 6 rest @ until_marker (drop 6 rest))))"

definition clean_extracted_sql :: "string \<Rightarrow> string" where
  "clean_extracted_sql sql =
     (if sql = [] then ''''
      else
        (let sql = strip_fences sql;
             sql = str_join '' '' (str_split sql);
             sql = str_strip (str_rstrip_chars sql '';'')
         in if \<not> list_ex (str_startswith (str_strip (str_upper sql)))
                   [''SELECT'', ''WITH'', ''SHOW'']
            then (case embedded_select sql of Some found \<Rightarrow> found | None \<Rightarrow> sql)
            else sql))"

text \<open>
  The loop over the lines of the response: its state is the tuple
  \<open>(sql_query, viz_type, viz_reason, insights)\<close>.
\<close>

type_synonym parsed = "string \<times> string \<times> string \<times> string"

fun scan_line :: "parsed \<Rightarrow> string \<Rightarrow> parsed" where
  "scan_line (sql_query, viz_type, viz_reason, insights) line =
     (if str_startswith line ''SQL_QUERY:''
      then (str_strip (strip_fences (str_strip (str_replace line ''SQL_QUERY:'' ''''))),
            viz_type, viz_reason, insights)
      else if str_startswith line ''VIZ_TYPE:''
      then (sql_query, str_strip (str_replace line ''VIZ_TYPE:'' ''''), viz_reason, insights)
      else if str_startswith line ''VIZ_REASON:''
      then (sql_query, viz_type, str_strip (str_replace line ''VIZ_REASON:'' ''''), insights)
      else if str_startswith line ''INSIGHTS:''
      then (sql_query, viz_type, viz_reason, str_strip (str_replace line ''INSIGHTS:'' ''''))
      else (sql_query, viz_type, viz_reason, insights))"

text \<open>A response that is \<open>None\<close> takes the branch of the empty string.\<close>

definition parse_openai_response :: "string \<Rightarrow> parsed" where
  "parse_openai_response response_text =
     (if response_text = [] then ('''', ''bar_chart'', ''Default visualization'', '''')
      else
        (case foldl scan_line ('''', ''bar_chart'', ''Default visualization'', '''')
                (str_split_on newline response_text) of
           (sql_query, viz_type, viz_reason, insights) \<Rightarrow>
             (let sql_query = (if sql_query = [] then extract_sql_from_text response_text
                               else sql_query);
                  sql_query = (if sql_query \<noteq> [] then clean_extracted_sql sql_query
                               else sql_query)
              in (sql_query, validate_visualization_type viz_type, viz_reason, insights))))"

section \<open>Query execution (database/queries.py)\<close>

text \<open>
  A \<open>pandas.DataFrame\<close> is modelled by its column names and its rows; \<open>DataFrame\<close> is the
  value of \<open>pd.DataFrame()\<close>, and \<open>df_empty\<close> is the attribute \<open>df.empty\<close> (true when an
  axis has length 0).
\<close>

record dataframe =
  df_columns :: "string list"
  df_rows :: "string list list"

definition DataFrame :: dataframe where
  "DataFrame = \<lparr>df_columns = [], df_rows = []\<rparr>"

definition df_empty :: "dataframe \<Rightarrow> bool" where
  "df_empty df = (df_columns df = [] \<or> df_rows df = [])"

text \<open>
  The argument \<open>db_engine_or_path\<close> is a SQLite file path (a \<open>str\<close>) or a SQLAlchemy
  engine.  The data source behind it is a parameter of the model: \<open>driver h sql\<close> is what
  \<open>pd.read_sql_query\<close> does with the query on the connection to \<open>h\<close>, a frame (\<open>Inr\<close>) or
  a raised exception with its message (\<open>Inl\<close>).
\<close>

datatype db_handle = Path string | Engine nat

type_synonym driver = "db_handle \<Rightarrow> string \<Rightarrow> string + dataframe"

text \<open>
  What the user interface and the outside world see of a run, in order: the Streamlit
  calls, the queries sent to the data source and the calls of the language model (with
  their attempt number).  The pictographs of the source's messages are left out.
\<close>

datatype event =
    StError string
  | StWarning string
  | StInfo string
  | StSubheader string
  | StCode string
  | StatusIndicator string string
  | InfoBox string string
  | Visualization dataframe string string string
  | QueryStatistics dataframe string
  | FallbackSuggestions "string list"
  | BackendQuery db_handle string
  | ModelCall nat

definition execute_postgres_query :: "driver \<Rightarrow> string \<Rightarrow> nat \<Rightarrow> string + dataframe" where
  "execute_postgres_query drv sql engine = drv (Engine engine) sql"

definition execute_sqlite_query :: "driver \<Rightarrow> string \<Rightarrow> string \<Rightarrow> string + dataframe" where
  "execute_sqlite_query drv sql db_path = drv (Path db_path) sql"

text \<open>The loop of \<open>clean_sql_query\<close> over the lines, with its flag \<open>in_code_block\<close>.\<close>

fun outside_code_block :: "bool \<Rightarrow> string list \<Rightarrow> string list" where
  "outside_code_block in_code_block [] = []"
| "outside_code_block in_code_block (line # lines) =
     (if str_startswith (str_strip line) ''```''
      then outside_code_block (\<not> in_code_block) lines
      else if \<not> in_code_block then line # outside_code_block in_code_block lines
      else outside_code_block in_code_block lines)"

definition clean_sql_query :: "string \<Rightarrow> string" where
  "clean_sql_query sql =
     (if sql = [] then ''''
      else
        (let sql = str_strip sql;
             sql = (if str_startswith sql ''```''
                    then str_strip (str_join [newline]
                           (outside_code_block False (str_split_on newline sql)))
                    else sql);
             sql = str_strip (str_rstrip_chars sql '';'');
             sql = str_join '' '' (str_split sql)
         in sql))"

definition handle_query_error :: "string \<Rightarrow> string \<Rightarrow> event list" where
  "handle_query_error error_msg sql =
     (if str_in ''syntax error'' (str_lower error_msg)
      then [StError (''SQL Syntax Error: '' @ error_msg),
            StError (''**Query:** `'' @ take 200 sql
                       @ (if length sql > 200 then ''...'' else '''') @ ''`''),
            StInfo ''The AI might have generated invalid SQL. Try rephrasing your question.'']
      else if str_in ''does not exist'' (str_lower error_msg)
      then [StError (''Database Error: '' @ error_msg),
            StInfo ''The table or column might not exist. Check your data source.'']
      else if str_in ''permission'' (str_lower error_msg)
      then [StError (''Permission Error: '' @ error_msg),
            StInfo ''You don't have permission to access this data.'']
      else [StError (''Database Error: '' @ error_msg)])"

text \<open>
  \<open>execute_sql_query\<close> returns the frame and the events of the call.  The \<open>try\<close> block
  catches every exception: the only call that can raise on a string is the one to the
  data source, and its \<open>Inl\<close> branch is the \<open>except\<close> clause.
\<close>

definition execute_sql_query :: "driver \<Rightarrow> string \<Rightarrow> db_handle \<Rightarrow> dataframe \<times> event list" where
  "execute_sql_query drv sql db_engine_or_path =
     (let sql = clean_sql_query sql in
      if sql = [] \<or> length (str_strip sql) < 5
      then (DataFrame, [StError ''Generated SQL query is too short or empty''])
      else if \<not> is_safe_query sql
      then (DataFrame, [StError ''Query contains potentially unsafe operations''])
      else
        (case (case db_engine_or_path of
                 Path db_path \<Rightarrow> execute_sqlite_query drv sql db_path
               | Engine engine \<Rightarrow> execute_postgres_query drv sql engine) of
           Inr df \<Rightarrow> (df, [BackendQuery db_engine_or_path sql])
         | Inl e \<Rightarrow> (DataFrame, BackendQuery db_engine_or_path sql # handle_query_error e sql)))"

section \<open>The query pipeline (pages/custom\_query.py)\<close>

text \<open>
  The fields of \<open>st.session_state\<close> that the pipeline reads (\<open>db_engine\<close>, \<open>table_name\<close>,
  \<open>columns\<close>, \<open>data_types\<close>), and the language model as a parameter: \<open>gateway question prompt table_info attempt\<close> is the result of
  \<open>generate_sql_from_question\<close>, the text of the response or \<open>None\<close>.
\<close>

record session_state =
  ss_db_engine :: db_handle
  ss_table_name :: string
  ss_columns :: "string list"
  ss_data_types :: data_types

type_synonym gateway = "string \<Rightarrow> string \<Rightarrow> string \<Rightarrow> nat \<Rightarrow> string option"

definition show_fallback_suggestions :: "session_state \<Rightarrow> event list" where
  "show_fallback_suggestions st =
     [StatusIndicator ''error'' ''Unable to generate results. Here are some suggestions:'',
      StSubheader ''Try These Queries Instead'',
      FallbackSuggestions (get_sample_queries (ss_table_name st) (ss_columns st) (ss_data_types st))]"

definition handle_empty_results ::
  "gateway \<Rightarrow> driver \<Rightarrow> session_state \<Rightarrow> string \<Rightarrow> string \<Rightarrow> string \<Rightarrow> event list" where
  "handle_empty_results gw drv st question prompt table_info =
     StWarning ''No results found. Let me try a different approach...'' # ModelCall 2 #
     (case gw question prompt table_info 2 of
        None \<Rightarrow> show_fallback_suggestions st
      | Some fallback_response \<Rightarrow>
          if fallback_response = [] then show_fallback_suggestions st
          else
            (case parse_openai_response fallback_response of
               (fallback_sql, fallback_viz, fallback_reason, fallback_insights) \<Rightarrow>
                 if fallback_sql = [] then show_fallback_suggestions st
                 else
                   StSubheader ''Alternative Query Approach'' # StCode fallback_sql #
                   (case execute_sql_query drv fallback_sql (ss_db_engine st) of
                      (fallback_df, evs) \<Rightarrow>
                        evs @
                        (if \<not> df_empty fallback_df
                         then StSubheader ''Exploratory Results''
                              # Visualization fallback_df fallback_viz fallback_reason question
                              # (if fallback_insights \<noteq> []
                                 then [InfoBox ''Alternative Insights'' fallback_insights]
                                 else [])
                         else show_fallback_suggestions st))))"

definition process_ai_response ::
  "gateway \<Rightarrow> driver \<Rightarrow> session_state \<Rightarrow> string \<Rightarrow> string \<Rightarrow> string \<Rightarrow> string \<Rightarrow> event list" where
  "process_ai_response gw drv st question response prompt table_info =
     (case parse_openai_response response of
        (sql_query, viz_type, viz_reason, insights) \<Rightarrow>
          if sql_query = []
          then [StatusIndicator ''error''
                  ''Could not extract a valid SQL query from AI response.'']
          else
            StSubheader ''Generated SQL Query'' # StCode sql_query #
            (case execute_sql_query drv sql_query (ss_db_engine st) of
               (df, evs) \<Rightarrow>
                 evs @
                 (if \<not> df_empty df
                  then StSubheader ''Query Results & Visualization''
                       # Visualization df viz_type viz_reason question
                       # (if insights \<noteq> [] then [InfoBox ''AI Insights'' insights] else [])
                       @ [QueryStatistics df sql_query]
                  else handle_empty_results gw drv st question prompt table_info)))"

section \<open>Example responses and session\<close>

definition unsafe_response :: string where
  "unsafe_response = ''SQL_QUERY: DROP TABLE users'' @ [newline] @ ''VIZ_TYPE: table''
     @ [newline] @ ''VIZ_REASON: none'' @ [newline] @ ''INSIGHTS: none''"

definition safe_response :: string where
  "safe_response = ''SQL_QUERY: SELECT a FROM t'' @ [newline] @ ''VIZ_TYPE: table''
     @ [newline] @ ''VIZ_REASON: none'' @ [newline] @ ''INSIGHTS: none''"

definition example_session :: session_state where
  "example_session =
     \<lparr>ss_db_engine = Path ''data.db'', ss_table_name = ''t'', ss_columns = [''a''],
      ss_data_types = None\<rparr>"

section \<open>Responses in the mandated format\<close>



section \<open>What the string searches decide\<close>

lemma str_startswith_iff: "str_startswith s p \<longleftrightarrow> (\<exists>rest. s = p @ rest)"
  by (induction s p rule: str_startswith.induct) auto

lemma str_in_iff: "str_in sub s \<longleftrightarrow> (\<exists>pre post. s = pre @ sub @ post)"
proof (induction s)
  case Nil
  show ?case by auto
next
  case (Cons c cs)
  show ?case
  proof
    assume "str_in sub (c # cs)"
    then consider "str_startswith (c # cs) sub" | "str_in sub cs" by auto
    then show "\<exists>pre post. c # cs = pre @ sub @ post"
    proof cases
      case 1
      then obtain rest where "c # cs = sub @ rest" by (auto simp: str_startswith_iff)
      then have "c # cs = [] @ sub @ rest" by simp
      then show ?thesis by blast
    next
      case 2
      then obtain pre post where "cs = pre @ sub @ post" using Cons.IH by auto
      then have "c # cs = (c # pre) @ sub @ post" by simp
      then show ?thesis by blast
    qed
  next
    assume "\<exists>pre post. c # cs = pre @ sub @ post"
    then obtain pre post where eq: "c # cs = pre @ sub @ post" by blast
    show "str_in sub (c # cs)"
    proof (cases pre)
      case Nil
      with eq have "str_startswith (c # cs) sub" by (auto simp: str_startswith_iff)
      then show ?thesis by simp
    next
      case (Cons p ps)
      with eq have "cs = ps @ sub @ post" by simp
      then have "str_in sub cs" using Cons.IH by blast
      then show ?thesis by simp
    qed
  qed
qed

lemma gap_then_iff:
  "gap_then s b \<longleftrightarrow> (\<exists>mid post. s = mid @ b @ post \<and> newline \<notin> set mid)"
proof (induction s)
  case Nil
  show ?case by auto
next
  case (Cons c cs)
  show ?case
  proof
    assume "gap_then (c # cs) b"
    then consider "str_startswith (c # cs) b" | "c \<noteq> newline" "gap_then cs b" by auto
    then show "\<exists>mid post. c # cs = mid @ b @ post \<and> newline \<notin> set mid"
    proof cases
      case 1
      then obtain rest where "c # cs = [] @ b @ rest" by (auto simp: str_startswith_iff)
      then show ?thesis by (metis empty_iff list.set(1))
    next
      case 2
      then obtain mid post where "cs = mid @ b @ post" "newline \<notin> set mid"
        using Cons.IH by auto
      with 2 have "c # cs = (c # mid) @ b @ post \<and> newline \<notin> set (c # mid)" by auto
      then show ?thesis by blast
    qed
  next
    assume "\<exists>mid post. c # cs = mid @ b @ post \<and> newline \<notin> set mid"
    then obtain mid post where eq: "c # cs = mid @ b @ post" and nl: "newline \<notin> set mid"
      by blast
    show "gap_then (c # cs) b"
    proof (cases mid)
      case Nil
      with eq have "str_startswith (c # cs) b" by (auto simp: str_startswith_iff)
      then show ?thesis by simp
    next
      case (Cons m ms)
      with eq nl have "cs = ms @ b @ post" "newline \<notin> set ms" "c \<noteq> newline" by auto
      then have "gap_then cs b" "c \<noteq> newline" using Cons.IH by blast+
      then show ?thesis by simp
    qed
  qed
qed

lemma re_search_gap_iff:
  "re_search_gap a b s \<longleftrightarrow>
     (\<exists>pre mid post. s = pre @ a @ mid @ b @ post \<and> newline \<notin> set mid)"
proof (induction s)
  case Nil
  show ?case by auto
next
  case (Cons c cs)
  show ?case
  proof
    assume "re_search_gap a b (c # cs)"
    then consider "str_startswith (c # cs) a" "gap_then (drop (length a) (c # cs)) b"
      | "re_search_gap a b cs" by auto
    then show "\<exists>pre mid post. c # cs = pre @ a @ mid @ b @ post \<and> newline \<notin> set mid"
    proof cases
      case 1
      then obtain rest where r: "c # cs = a @ rest" by (auto simp: str_startswith_iff)
      then have "drop (length a) (c # cs) = rest" by simp
      with 1 obtain mid post where "rest = mid @ b @ post" "newline \<notin> set mid"
        by (auto simp: gap_then_iff)
      with r have "c # cs = [] @ a @ mid @ b @ post \<and> newline \<notin> set mid" by simp
      then show ?thesis by blast
    next
      case 2
      then obtain pre mid post where "cs = pre @ a @ mid @ b @ post" "newline \<notin> set mid"
        using Cons.IH by auto
      then have "c # cs = (c # pre) @ a @ mid @ b @ post \<and> newline \<notin> set mid" by simp
      then show ?thesis by blast
    qed
  next
    assume "\<exists>pre mid post. c # cs = pre @ a @ mid @ b @ post \<and> newline \<notin> set mid"
    then obtain pre mid post where eq: "c # cs = pre @ a @ mid @ b @ post"
      and nl: "newline \<notin> set mid" by blast
    show "re_search_gap a b (c # cs)"
    proof (cases pre)
      case Nil
      with eq have e: "c # cs = a @ (mid @ b @ post)" by simp
      then have "str_startswith (c # cs) a" unfolding str_startswith_iff by blast
      moreover from e have "drop (length a) (c # cs) = mid @ b @ post" by simp
      then have "gap_then (drop (length a) (c # cs)) b" using nl by (auto simp: gap_then_iff)
      ultimately show ?thesis by simp
    next
      case (Cons p ps)
      with eq have "cs = ps @ a @ mid @ b @ post" by simp
      then have "re_search_gap a b cs" using Cons.IH nl by blast
      then show ?thesis by simp
    qed
  qed
qed

section \<open>Properties of the safety filter\<close>

lemma is_safe_query_start:
  assumes "is_safe_query sql"
  shows "\<exists>k \<in> set safe_starts. \<exists>rest. str_strip (str_upper sql) = k @ rest"
  using assms
  by (auto simp: is_safe_query_def Let_def list_ex_iff str_startswith_iff split: if_splits)

lemma is_safe_query_no_keyword:
  assumes "is_safe_query sql" and "k \<in> set dangerous_keywords"
  shows "str_strip (str_upper sql) \<noteq> pre @ k @ post"
proof
  assume "str_strip (str_upper sql) = pre @ k @ post"
  then have "str_in k (str_strip (str_upper sql))" unfolding str_in_iff by blast
  with assms(2) have "list_ex (\<lambda>keyword. str_in keyword (str_strip (str_upper sql))) dangerous_keywords"
    unfolding list_ex_iff by blast
  with assms(1) show False by (simp add: is_safe_query_def Let_def split: if_splits)
qed

lemma is_safe_query_no_pattern:
  assumes "is_safe_query sql" and "p \<in> set suspicious_patterns"
  shows "\<not> p (str_strip (str_upper sql))"
proof
  assume "p (str_strip (str_upper sql))"
  with assms(2) have "list_ex (\<lambda>pattern. pattern (str_strip (str_upper sql))) suspicious_patterns"
    unfolding list_ex_iff by blast
  with assms(1) show False by (simp add: is_safe_query_def Let_def split: if_splits)
qed

lemma upper_char_newline: "upper_char c = newline \<Longrightarrow> c = newline"
proof (cases "map_of (zip ascii_lowercase ascii_uppercase) c")
  case None
  assume "upper_char c = newline"
  with None show ?thesis by (simp add: upper_char_def)
next
  case (Some u)
  then have "u \<in> set ascii_uppercase" by (auto dest!: map_of_SomeD set_zip_rightD)
  then have "u \<noteq> newline" by (auto simp: ascii_uppercase_def newline_def)
  moreover assume "upper_char c = newline"
  ultimately show ?thesis using Some by (simp add: upper_char_def)
qed

lemma set_str_strip: "set (str_strip s) \<subseteq> set s"
proof -
  have "set (str_rstrip (str_lstrip s)) \<subseteq> set (str_lstrip s)"
    unfolding str_rstrip_def using set_dropWhileD [of _ py_isspace "rev (str_lstrip s)"] by auto
  moreover have "set (str_lstrip s) \<subseteq> set s"
    unfolding str_lstrip_def using set_dropWhileD [of _ py_isspace s] by auto
  ultimately show ?thesis unfolding str_strip_def by blast
qed

lemma newline_strip_upper:
  assumes "newline \<notin> set sql"
  shows "newline \<notin> set (str_strip (str_upper sql))"
proof
  assume "newline \<in> set (str_strip (str_upper sql))"
  then have "newline \<in> set (str_upper sql)" using set_str_strip by blast
  then obtain c where "c \<in> set sql" "upper_char c = newline" by (auto simp: str_upper_def)
  with assms show False by (auto dest: upper_char_newline)
qed

lemma is_safe_query_single_line:
  assumes "is_safe_query sql" and "newline \<notin> set sql"
  shows "str_strip (str_upper sql) \<noteq> pre @ '';'' @ mid @ ''SELECT'' @ post"
    and "str_strip (str_upper sql) \<noteq> pre @ ''UNION'' @ mid @ ''SELECT'' @ post"
proof -
  have semi: "re_search_gap '';'' ''SELECT'' \<in> set suspicious_patterns"
    and union: "re_search_gap ''UNION'' ''SELECT'' \<in> set suspicious_patterns"
    unfolding suspicious_patterns_def by simp_all
  from newline_strip_upper [OF assms(2)]
  have nl: "newline \<notin> set (str_strip (str_upper sql))" .
  show "str_strip (str_upper sql) \<noteq> pre @ '';'' @ mid @ ''SELECT'' @ post"
  proof
    assume e: "str_strip (str_upper sql) = pre @ '';'' @ mid @ ''SELECT'' @ post"
    with nl have "newline \<notin> set mid" by auto
    with e is_safe_query_no_pattern [OF assms(1) semi] show False
      unfolding re_search_gap_iff by blast
  qed
  show "str_strip (str_upper sql) \<noteq> pre @ ''UNION'' @ mid @ ''SELECT'' @ post"
  proof
    assume e: "str_strip (str_upper sql) = pre @ ''UNION'' @ mid @ ''SELECT'' @ post"
    with nl have "newline \<notin> set mid" by auto
    with e is_safe_query_no_pattern [OF assms(1) union] show False
      unfolding re_search_gap_iff by blast
  qed
qed

lemma is_safe_query_same_line_shape:
  assumes "is_safe_query sql"
  shows "(\<exists>rest. str_strip (str_upper sql) = ''SELECT'' @ rest
              \<or> str_strip (str_upper sql) = ''WITH'' @ rest
              \<or> str_strip (str_upper sql) = ''SHOW'' @ rest
              \<or> str_strip (str_upper sql) = ''DESCRIBE'' @ rest
              \<or> str_strip (str_upper sql) = ''EXPLAIN'' @ rest)
       \<and> (\<forall>k pre post.
             k \<in> {''DROP'', ''DELETE'', ''UPDATE'', ''INSERT'', ''ALTER'', ''CREATE'',
                  ''TRUNCATE'', ''GRANT'', ''REVOKE'', ''EXEC'', ''EXECUTE''}
             \<longrightarrow> str_strip (str_upper sql) \<noteq> pre @ k @ post)
       \<and> (\<forall>pre post. str_strip (str_upper sql) \<noteq> pre @ ''--'' @ post)
       \<and> (\<forall>pre post. str_strip (str_upper sql) \<noteq> pre @ ''/*'' @ post)
       \<and> (\<forall>pre mid post. newline \<notin> set mid
             \<longrightarrow> str_strip (str_upper sql) \<noteq> pre @ '';'' @ mid @ ''SELECT'' @ post)
       \<and> (\<forall>pre mid post. newline \<notin> set mid
             \<longrightarrow> str_strip (str_upper sql) \<noteq> pre @ ''UNION'' @ mid @ ''SELECT'' @ post)"
proof (intro conjI allI impI)
  from is_safe_query_start [OF assms]
  show "\<exists>rest. str_strip (str_upper sql) = ''SELECT'' @ rest
              \<or> str_strip (str_upper sql) = ''WITH'' @ rest
              \<or> str_strip (str_upper sql) = ''SHOW'' @ rest
              \<or> str_strip (str_upper sql) = ''DESCRIBE'' @ rest
              \<or> str_strip (str_upper sql) = ''EXPLAIN'' @ rest"
    unfolding safe_starts_def by auto
next
  fix k pre post
  assume "k \<in> {''DROP'', ''DELETE'', ''UPDATE'', ''INSERT'', ''ALTER'', ''CREATE'',
                  ''TRUNCATE'', ''GRANT'', ''REVOKE'', ''EXEC'', ''EXECUTE''}"
  then have "k \<in> set dangerous_keywords" unfolding dangerous_keywords_def by simp
  from is_safe_query_no_keyword [OF assms this]
  show "str_strip (str_upper sql) \<noteq> pre @ k @ post" .
next
  fix pre post
  have "str_in ''--'' \<in> set suspicious_patterns" unfolding suspicious_patterns_def by simp
  from is_safe_query_no_pattern [OF assms this]
  show "str_strip (str_upper sql) \<noteq> pre @ ''--'' @ post" unfolding str_in_iff by blast
next
  fix pre post
  have "str_in ''/*'' \<in> set suspicious_patterns" unfolding suspicious_patterns_def by simp
  from is_safe_query_no_pattern [OF assms this]
  show "str_strip (str_upper sql) \<noteq> pre @ ''/*'' @ post" unfolding str_in_iff by blast
next
  fix pre mid post
  assume nl: "newline \<notin> set mid"
  have "re_search_gap '';'' ''SELECT'' \<in> set suspicious_patterns"
    unfolding suspicious_patterns_def by simp
  from is_safe_query_no_pattern [OF assms this] nl
  show "str_strip (str_upper sql) \<noteq> pre @ '';'' @ mid @ ''SELECT'' @ post"
    unfolding re_search_gap_iff by blast
next
  fix pre mid post
  assume nl: "newline \<notin> set mid"
  have "re_search_gap ''UNION'' ''SELECT'' \<in> set suspicious_patterns"
    unfolding suspicious_patterns_def by simp
  from is_safe_query_no_pattern [OF assms this] nl
  show "str_strip (str_upper sql) \<noteq> pre @ ''UNION'' @ mid @ ''SELECT'' @ post"
    unfolding re_search_gap_iff by blast
qed

text \<open>
  Claim C3, as stated, fails: the filter accepts a query with a statement separator
  followed, on the next line, by a second SELECT, and a query with UNION followed, on the
  next line, by SELECT.  The two gap patterns \<open>;.*SELECT\<close> and \<open>UNION.*SELECT\<close> are
  searched without \<open>re.DOTALL\<close>, so their gap does not cross a line feed.
\<close>

theorem is_safe_query_line_feed_counterexample:
  "is_safe_query (''SELECT 1;'' @ [newline] @ ''SELECT 2'')
   \<and> str_strip (str_upper (''SELECT 1;'' @ [newline] @ ''SELECT 2''))
       = ''SELECT 1'' @ '';'' @ [newline] @ ''SELECT'' @ '' 2''
   \<and> is_safe_query (''SELECT a FROM t UNION'' @ [newline] @ ''SELECT b FROM u'')
   \<and> str_strip (str_upper (''SELECT a FROM t UNION'' @ [newline] @ ''SELECT b FROM u''))
       = ''SELECT A FROM T '' @ ''UNION'' @ [newline] @ ''SELECT'' @ '' B FROM U''"
  by code_simp

text \<open>
  Claim C3, amended.  Whenever the safety filter accepts a query, the trimmed upper-cased
  text starts with one of SELECT, WITH, SHOW, DESCRIBE, EXPLAIN, none of the eleven
  deny-listed keywords occurs in it as a substring, it has no \<open>--\<close> and no \<open>/*\<close>, and
  neither a statement separator nor UNION is followed on the same line by SELECT.  When
  the query holds no line feed (as every query that \<open>execute_sql_query\<close> hands to the
  filter), neither a statement separator nor UNION is followed anywhere by SELECT.
\<close>

theorem is_safe_query_accepted_shape:
  assumes "is_safe_query sql"
  shows "(\<exists>rest. str_strip (str_upper sql) = ''SELECT'' @ rest
              \<or> str_strip (str_upper sql) = ''WITH'' @ rest
              \<or> str_strip (str_upper sql) = ''SHOW'' @ rest
              \<or> str_strip (str_upper sql) = ''DESCRIBE'' @ rest
              \<or> str_strip (str_upper sql) = ''EXPLAIN'' @ rest)
       \<and> (\<forall>k pre post.
             k \<in> {''DROP'', ''DELETE'', ''UPDATE'', ''INSERT'', ''ALTER'', ''CREATE'',
                  ''TRUNCATE'', ''GRANT'', ''REVOKE'', ''EXEC'', ''EXECUTE''}
             \<longrightarrow> str_strip (str_upper sql) \<noteq> pre @ k @ post)
       \<and> (\<forall>pre post. str_strip (str_upper sql) \<noteq> pre @ ''--'' @ post)
       \<and> (\<forall>pre post. str_strip (str_upper sql) \<noteq> pre @ ''/*'' @ post)
       \<and> (\<forall>pre mid post. newline \<notin> set mid
             \<longrightarrow> str_strip (str_upper sql) \<noteq> pre @ '';'' @ mid @ ''SELECT'' @ post)
       \<and> (\<forall>pre mid post. newline \<notin> set mid
             \<longrightarrow> str_strip (str_upper sql) \<noteq> pre @ ''UNION'' @ mid @ ''SELECT'' @ post)
       \<and> (newline \<notin> set sql
            \<longrightarrow> (\<forall>pre mid post.
                   str_strip (str_upper sql) \<noteq> pre @ '';'' @ mid @ ''SELECT'' @ post
                   \<and> str_strip (str_upper sql) \<noteq> pre @ ''UNION'' @ mid @ ''SELECT'' @ post))"
proof -
  have "newline \<notin> set sql
            \<longrightarrow> (\<forall>pre mid post.
                   str_strip (str_upper sql) \<noteq> pre @ '';'' @ mid @ ''SELECT'' @ post
                   \<and> str_strip (str_upper sql) \<noteq> pre @ ''UNION'' @ mid @ ''SELECT'' @ post)"
    using is_safe_query_single_line [OF assms] by blast
  with is_safe_query_same_line_shape [OF assms] show ?thesis by (intro conjI) blast+
qed

lemma safe_example: "is_safe_query ''select a from t''"
  by code_simp

text \<open>
  Witness for the amended C3: the accepted query \<open>select a from t\<close>, which holds no line
  feed.
\<close>

theorem is_safe_query_accepted_shape_witness:
  "is_safe_query ''select a from t''
   \<and> newline \<notin> set ''select a from t''
   \<and> (\<forall>pre post. str_strip (str_upper ''select a from t'') \<noteq> pre @ ''DROP'' @ post)
   \<and> (\<forall>pre post. str_strip (str_upper ''select a from t'') \<noteq> pre @ ''--'' @ post)
   \<and> (\<forall>pre mid post.
         str_strip (str_upper ''select a from t'') \<noteq> pre @ '';'' @ mid @ ''SELECT'' @ post)"
proof -
  have n: "newline \<notin> set ''select a from t''" by (simp add: newline_def)
  from is_safe_query_accepted_shape [OF safe_example] safe_example n
  show ?thesis by blast
qed

text \<open>
  Claim C4, as stated, fails: \<open>SHOW TABLES\<close> passes the safety filter and starts neither
  with SELECT nor with WITH.
\<close>

theorem is_safe_query_show_counterexample:
  "is_safe_query ''SHOW TABLES''
   \<and> (\<forall>rest. str_strip (str_upper ''SHOW TABLES'') \<noteq> ''SELECT'' @ rest)
   \<and> (\<forall>rest. str_strip (str_upper ''SHOW TABLES'') \<noteq> ''WITH'' @ rest)"
proof -
  have a: "is_safe_query ''SHOW TABLES''" by code_simp
  have u: "str_strip (str_upper ''SHOW TABLES'') = ''SHOW TABLES''" by code_simp
  show ?thesis unfolding u using a by simp
qed

text \<open>
  Claim C4, amended.  Every query that passes the safety filter starts (after trimming
  and upper-casing) with one of SELECT, WITH, SHOW, DESCRIBE, EXPLAIN, and contains none of
  the deny-listed keywords.
\<close>

theorem is_safe_query_start_and_keywords:
  assumes "is_safe_query sql"
  shows "(\<exists>rest. str_strip (str_upper sql) = ''SELECT'' @ rest
              \<or> str_strip (str_upper sql) = ''WITH'' @ rest
              \<or> str_strip (str_upper sql) = ''SHOW'' @ rest
              \<or> str_strip (str_upper sql) = ''DESCRIBE'' @ rest
              \<or> str_strip (str_upper sql) = ''EXPLAIN'' @ rest)
       \<and> \<not> (\<exists>k \<in> set dangerous_keywords. \<exists>pre post. str_strip (str_upper sql) = pre @ k @ post)"
proof
  from is_safe_query_start [OF assms]
  show "\<exists>rest. str_strip (str_upper sql) = ''SELECT'' @ rest
              \<or> str_strip (str_upper sql) = ''WITH'' @ rest
              \<or> str_strip (str_upper sql) = ''SHOW'' @ rest
              \<or> str_strip (str_upper sql) = ''DESCRIBE'' @ rest
              \<or> str_strip (str_upper sql) = ''EXPLAIN'' @ rest"
    unfolding safe_starts_def by auto
next
  show "\<not> (\<exists>k \<in> set dangerous_keywords. \<exists>pre post. str_strip (str_upper sql) = pre @ k @ post)"
    using is_safe_query_no_keyword [OF assms] by blast
qed

lemma show_example: "is_safe_query ''SHOW TABLES''"
  by code_simp

text \<open>
  Witness for the amended C4: \<open>SHOW TABLES\<close>.
\<close>

theorem is_safe_query_start_and_keywords_witness:
  "is_safe_query ''SHOW TABLES''
   \<and> (\<exists>rest. str_strip (str_upper ''SHOW TABLES'') = ''SHOW'' @ rest)
   \<and> \<not> (\<exists>k \<in> set dangerous_keywords. \<exists>pre post.
            str_strip (str_upper ''SHOW TABLES'') = pre @ k @ post)"
proof -
  have u: "str_strip (str_upper ''SHOW TABLES'') = ''SHOW'' @ '' TABLES''" by code_simp
  from is_safe_query_start_and_keywords [OF show_example] show_example u
  show ?thesis by blast
qed

section \<open>Properties of the visualization-kind normalization\<close>

lemma find_Some_mem: "find P xs = Some x \<Longrightarrow> x \<in> set xs"
  by (induction xs) (auto split: if_splits)

lemma find_Some_holds: "find P xs = Some x \<Longrightarrow> P x"
  by (induction xs) (auto split: if_splits)

lemma type_mappings_values: "(key, value) \<in> set type_mappings \<Longrightarrow> value \<in> set valid_types"
  unfolding type_mappings_def valid_types_def by auto

lemma validate_visualization_type_valid:
  "validate_visualization_type s \<in> set valid_types"
proof (cases "str_strip (str_lower s) \<in> set valid_types")
  case True
  then show ?thesis by (simp add: validate_visualization_type_def Let_def)
next
  case False
  show ?thesis
  proof (cases "find (\<lambda>(key, value). str_in key (str_strip (str_lower s))) type_mappings")
    case None
    with False have "validate_visualization_type s = ''bar_chart''"
      by (simp add: validate_visualization_type_def Let_def)
    then show ?thesis by (simp add: valid_types_def)
  next
    case (Some kv)
    obtain key val where kv: "kv = (key, val)" by (cases kv)
    with Some False have "validate_visualization_type s = val"
      by (simp add: validate_visualization_type_def Let_def)
    moreover from Some kv have "(key, val) \<in> set type_mappings" by (auto dest: find_Some_mem)
    ultimately show ?thesis by (simp add: type_mappings_values)
  qed
qed

lemma validate_visualization_type_fixed:
  "validate_visualization_type ''bar_chart'' = ''bar_chart''"
  "validate_visualization_type ''line_chart'' = ''line_chart''"
  "validate_visualization_type ''pie_chart'' = ''pie_chart''"
  "validate_visualization_type ''scatter_plot'' = ''scatter_plot''"
  "validate_visualization_type ''histogram'' = ''histogram''"
  "validate_visualization_type ''box_plot'' = ''box_plot''"
  "validate_visualization_type ''heatmap'' = ''heatmap''"
  "validate_visualization_type ''table'' = ''table''"
  by code_simp+

lemma validate_visualization_type_donut:
  "validate_visualization_type ''donut'' = ''pie_chart''"
  "validate_visualization_type ''Donut'' = ''pie_chart''"
  "validate_visualization_type '' DONUT '' = ''pie_chart''"
  by code_simp+

text \<open>
  Claim C8.  Normalizing each of the eight known chart kinds returns that kind, so
  normalizing any string twice is normalizing it once; and \<open>donut\<close>, \<open>Donut\<close> and
  \<open> DONUT \<close> all normalize to \<open>pie_chart\<close>.
\<close>

theorem validate_visualization_type_idempotent:
  "validate_visualization_type ''bar_chart'' = ''bar_chart''
   \<and> validate_visualization_type ''line_chart'' = ''line_chart''
   \<and> validate_visualization_type ''pie_chart'' = ''pie_chart''
   \<and> validate_visualization_type ''scatter_plot'' = ''scatter_plot''
   \<and> validate_visualization_type ''histogram'' = ''histogram''
   \<and> validate_visualization_type ''box_plot'' = ''box_plot''
   \<and> validate_visualization_type ''heatmap'' = ''heatmap''
   \<and> validate_visualization_type ''table'' = ''table''
   \<and> validate_visualization_type (validate_visualization_type s) = validate_visualization_type s
   \<and> validate_visualization_type ''donut'' = ''pie_chart''
   \<and> validate_visualization_type ''Donut'' = ''pie_chart''
   \<and> validate_visualization_type '' DONUT '' = ''pie_chart''"
proof -
  have "validate_visualization_type s \<in> set valid_types"
    by (rule validate_visualization_type_valid)
  then have "validate_visualization_type (validate_visualization_type s)
               = validate_visualization_type s"
    unfolding valid_types_def using validate_visualization_type_fixed by auto
  then show ?thesis
    using validate_visualization_type_fixed validate_visualization_type_donut by simp
qed

text \<open>Witness for C8: the string \<open>a Trend line\<close>, which normalizes to \<open>line_chart\<close>.\<close>

theorem validate_visualization_type_idempotent_witness:
  "validate_visualization_type (validate_visualization_type ''a Trend line'')
     = validate_visualization_type ''a Trend line''
   \<and> validate_visualization_type ''a Trend line'' = ''line_chart''"
proof -
  have "validate_visualization_type ''a Trend line'' = ''line_chart''" by code_simp
  with validate_visualization_type_idempotent [of "''a Trend line''"] show ?thesis by simp
qed

section \<open>Properties of the question validation\<close>

lemma find_None_iff_no: "find P xs = None \<longleftrightarrow> (\<forall>x \<in> set xs. \<not> P x)"
  by (induction xs) auto

lemma validate_query_generation_valid_iff:
  "fst (validate_query_generation q) \<longleftrightarrow>
     5 \<le> length (str_strip q) \<and> length q \<le> 500
     \<and> (\<forall>k \<in> set problematic_keywords. \<not> str_in k (str_lower q))"
proof -
  have e: "q = [] \<Longrightarrow> length (str_strip q) < 5"
    by (simp add: str_strip_def str_lstrip_def str_rstrip_def)
  show ?thesis
  proof (cases "find (\<lambda>keyword. str_in keyword (str_lower q)) problematic_keywords")
    case None
    then have "\<forall>k \<in> set problematic_keywords. \<not> str_in k (str_lower q)"
      by (simp add: find_None_iff_no)
    with None e show ?thesis by (auto simp: validate_query_generation_def)
  next
    case (Some w)
    then have "w \<in> set problematic_keywords" "str_in w (str_lower q)"
      by (auto dest: find_Some_mem find_Some_holds)
    with Some show ?thesis by (auto simp: validate_query_generation_def)
  qed
qed

text \<open>
  Claim C10.  A question whose lower-cased text contains \<open>hack\<close>, \<open>exploit\<close>, \<open>bypass\<close> or
  \<open>inject\<close> is rejected, whatever its length; a question is accepted only if its trimmed
  length is at least 5, its length is at most 500 and its lower-cased text contains none
  of the four substrings (and every such question is accepted).
\<close>

theorem validate_query_generation_rejects_keywords:
  "(k \<in> {''hack'', ''exploit'', ''bypass'', ''inject''} \<and> str_lower q = pre @ k @ post
      \<longrightarrow> \<not> fst (validate_query_generation q))
   \<and> (fst (validate_query_generation q) \<longleftrightarrow>
        5 \<le> length (str_strip q) \<and> length q \<le> 500
        \<and> \<not> (\<exists>w \<in> {''hack'', ''exploit'', ''bypass'', ''inject''}.
               \<exists>pre post. str_lower q = pre @ w @ post))"
proof -
  have s: "set problematic_keywords = {''hack'', ''exploit'', ''bypass'', ''inject''}"
    by (simp add: problematic_keywords_def)
  have iff: "fst (validate_query_generation q) \<longleftrightarrow>
        5 \<le> length (str_strip q) \<and> length q \<le> 500
        \<and> \<not> (\<exists>w \<in> {''hack'', ''exploit'', ''bypass'', ''inject''}.
               \<exists>pre post. str_lower q = pre @ w @ post)"
    unfolding validate_query_generation_valid_iff s str_in_iff by blast
  then show ?thesis by blast
qed

text \<open>
  Witness for C10: a question of 14 characters that contains \<open>hack\<close> is rejected, and
  the question \<open>show sales by region\<close> is accepted.
\<close>

theorem validate_query_generation_rejects_keywords_witness:
  "\<not> fst (validate_query_generation ''how to Hack it'')
   \<and> 5 \<le> length (str_strip ''how to Hack it'') \<and> length ''how to Hack it'' \<le> 500
   \<and> fst (validate_query_generation ''show sales by region'')"
proof -
  have l: "str_lower ''how to Hack it'' = ''how to '' @ ''hack'' @ '' it''" by code_simp
  have t: "5 \<le> length (str_strip ''how to Hack it'')" by code_simp
  have a: "fst (validate_query_generation ''show sales by region'')" by code_simp
  from validate_query_generation_rejects_keywords
         [of "''hack''" "''how to Hack it''" "''how to ''" "'' it''"] l
  have "\<not> fst (validate_query_generation ''how to Hack it'')" by simp
  with t a show ?thesis by simp
qed

section \<open>Properties of the prompt builder\<close>

text \<open>
  Claim C6.  For every table name, column list and column-kind mapping, the sample-query
  generator returns at most 8 suggestions, and at least 3 whenever at least one column
  exists.
\<close>

theorem get_sample_queries_length:
  "length (get_sample_queries table_name columns data_types) \<le> 8
   \<and> (columns \<noteq> [] \<longrightarrow> 3 \<le> length (get_sample_queries table_name columns data_types))"
  by (simp add: get_sample_queries_def Let_def)

text \<open>
  Witness for C6: one text column, two numeric columns and a date column give eleven
  candidates, cut to eight.
\<close>

theorem get_sample_queries_length_witness:
  "[''region'', ''sales'', ''cost'', ''day''] \<noteq> []
   \<and> 3 \<le> length (get_sample_queries ''t'' [''region'', ''sales'', ''cost'', ''day'']
          (Some [(''region'', ''text''), (''sales'', ''numeric''), (''cost'', ''integer''),
                 (''day'', ''datetime'')]))
   \<and> length (get_sample_queries ''t'' [''region'', ''sales'', ''cost'', ''day'']
          (Some [(''region'', ''text''), (''sales'', ''numeric''), (''cost'', ''integer''),
                 (''day'', ''datetime'')])) = 8"
proof -
  have "length (get_sample_queries ''t'' [''region'', ''sales'', ''cost'', ''day'']
          (Some [(''region'', ''text''), (''sales'', ''numeric''), (''cost'', ''integer''),
                 (''day'', ''datetime'')])) = 8"
    by code_simp
  with get_sample_queries_length [of "''t''" "[''region'', ''sales'', ''cost'', ''day'']"
          "Some [(''region'', ''text''), (''sales'', ''numeric''), (''cost'', ''integer''),
                 (''day'', ''datetime'')]"]
  show ?thesis by simp
qed

text \<open>
  Claim C7, as stated, fails: with one column and an empty column-kind mapping the sizes
  disagree (0 against 1), and the parameters are reported valid.
\<close>

theorem validate_prompt_parameters_empty_mapping_counterexample:
  "fst (validate_prompt_parameters ''t'' [''a''] (Some []))
   \<and> length (dict_items (Some [])) \<noteq> length [''a'']"
  by (simp add: validate_prompt_parameters_def dict_items_def)

text \<open>
  Claim C7, amended.  Validation reports invalid exactly when the table name is empty, or
  the column list is empty, or the column list has more than 1000 entries, or the
  column-kind mapping is not empty and its size differs from the size of the column list.
\<close>

theorem validate_prompt_parameters_invalid_iff:
  "\<not> fst (validate_prompt_parameters table_name columns data_types) \<longleftrightarrow>
     table_name = [] \<or> columns = [] \<or> length columns > 1000
     \<or> (dict_items data_types \<noteq> [] \<and> length (dict_items data_types) \<noteq> length columns)"
  by (auto simp: validate_prompt_parameters_def)

text \<open>
  Witness for the amended C7: a mapping of two entries against one column is invalid, an
  empty mapping against one column is valid.
\<close>

theorem validate_prompt_parameters_invalid_iff_witness:
  "\<not> fst (validate_prompt_parameters ''t'' [''a''] (Some [(''a'', ''text''), (''b'', ''text'')]))
   \<and> fst (validate_prompt_parameters ''t'' [''a''] None)"
  using validate_prompt_parameters_invalid_iff [of "''t''" "[''a'']" "Some [(''a'', ''text''), (''b'', ''text'')]"]
        validate_prompt_parameters_invalid_iff [of "''t''" "[''a'']" None]
  by (simp add: dict_items_def)

section \<open>Properties of the query execution\<close>

lemma execute_sql_query_short:
  "length (str_strip (clean_sql_query sql)) < 5 \<Longrightarrow>
     execute_sql_query drv sql h
       = (DataFrame, [StError ''Generated SQL query is too short or empty''])"
  by (simp add: execute_sql_query_def Let_def)

lemma str_strip_Nil: "str_strip [] = []"
  by (simp add: str_strip_def str_lstrip_def str_rstrip_def)

lemma execute_sql_query_unsafe:
  "5 \<le> length (str_strip (clean_sql_query sql)) \<Longrightarrow> \<not> is_safe_query (clean_sql_query sql) \<Longrightarrow>
     execute_sql_query drv sql h
       = (DataFrame, [StError ''Query contains potentially unsafe operations''])"
  by (auto simp: execute_sql_query_def Let_def str_strip_Nil)

lemma execute_sql_query_run:
  "5 \<le> length (str_strip (clean_sql_query sql)) \<Longrightarrow> is_safe_query (clean_sql_query sql) \<Longrightarrow>
     execute_sql_query drv sql h
       = (case drv h (clean_sql_query sql) of
            Inr df \<Rightarrow> (df, [BackendQuery h (clean_sql_query sql)])
          | Inl e \<Rightarrow> (DataFrame, BackendQuery h (clean_sql_query sql)
                                   # handle_query_error e (clean_sql_query sql)))"
  by (cases h)
     (auto simp: execute_sql_query_def Let_def str_strip_Nil execute_sqlite_query_def
                 execute_postgres_query_def)

lemma df_empty_DataFrame: "df_empty DataFrame"
  by (simp add: df_empty_def DataFrame_def)

lemma execute_sql_query_cases:
  "fst (execute_sql_query drv sql h) = DataFrame
   \<or> (\<exists>df. drv h (clean_sql_query sql) = Inr df \<and> fst (execute_sql_query drv sql h) = df
          \<and> 5 \<le> length (str_strip (clean_sql_query sql)) \<and> is_safe_query (clean_sql_query sql))"
proof (cases "length (str_strip (clean_sql_query sql)) < 5")
  case True
  then show ?thesis by (simp add: execute_sql_query_short)
next
  case long: False
  show ?thesis
  proof (cases "is_safe_query (clean_sql_query sql)")
    case False
    with long show ?thesis by (simp add: execute_sql_query_unsafe)
  next
    case True
    with long show ?thesis
      by (cases "drv h (clean_sql_query sql)") (simp_all add: execute_sql_query_run)
  qed
qed

lemma handle_query_error_events: "BackendQuery h' s \<notin> set (handle_query_error e sql)"
  by (simp add: handle_query_error_def)

lemma handle_query_error_no_model: "ModelCall n \<notin> set (handle_query_error e sql)"
  by (simp add: handle_query_error_def)

lemma execute_sql_query_backend_safe:
  assumes "BackendQuery h' s \<in> set (snd (execute_sql_query drv sql h))"
  shows "s = clean_sql_query sql \<and> is_safe_query s \<and> h' = h"
proof (cases "length (str_strip (clean_sql_query sql)) < 5")
  case True
  with assms show ?thesis by (simp add: execute_sql_query_short)
next
  case long: False
  show ?thesis
  proof (cases "is_safe_query (clean_sql_query sql)")
    case False
    with long assms show ?thesis by (simp add: execute_sql_query_unsafe)
  next
    case True
    with long assms show ?thesis
      by (cases "drv h (clean_sql_query sql)")
         (auto simp: execute_sql_query_run handle_query_error_events)
  qed
qed

lemma execute_sql_query_no_model: "ModelCall n \<notin> set (snd (execute_sql_query drv sql h))"
proof (cases "length (str_strip (clean_sql_query sql)) < 5")
  case True
  then show ?thesis by (simp add: execute_sql_query_short)
next
  case long: False
  show ?thesis
  proof (cases "is_safe_query (clean_sql_query sql)")
    case False
    with long show ?thesis by (simp add: execute_sql_query_unsafe)
  next
    case True
    with long show ?thesis
      by (cases "drv h (clean_sql_query sql)")
         (auto simp: execute_sql_query_run handle_query_error_no_model)
  qed
qed

text \<open>
  Claim C9, as stated, fails: the frame returned for a query that ran and matched no row
  keeps its columns, and the frame returned when the data source raises is
  \<open>pd.DataFrame()\<close>, which has none.  The two return values differ.
\<close>

theorem execute_sql_query_columns_counterexample:
  "fst (execute_sql_query (\<lambda>h s. Inr \<lparr>df_columns = [''a''], df_rows = []\<rparr>)
          ''SELECT a FROM t'' (Path ''db'')) = \<lparr>df_columns = [''a''], df_rows = []\<rparr>
   \<and> fst (execute_sql_query (\<lambda>h s. Inl ''no such table: t'')
          ''SELECT a FROM t'' (Path ''db'')) = DataFrame
   \<and> \<lparr>df_columns = [''a''], df_rows = []\<rparr> \<noteq> DataFrame"
proof -
  have c: "clean_sql_query ''SELECT a FROM t'' = ''SELECT a FROM t''" by code_simp
  have l: "5 \<le> length (str_strip ''SELECT a FROM t'')" by code_simp
  have s: "is_safe_query ''SELECT a FROM t''" by code_simp
  show ?thesis by (simp add: execute_sql_query_run c l s DataFrame_def)
qed

text \<open>
  Claim C9, amended.  \<open>execute_sql_query\<close> returns a frame on every query and data-source
  handle, whatever the data source does (a frame or an exception): it is the frame of the
  data source or \<open>pd.DataFrame()\<close>.  On a query shorter than 5 characters, on a query
  that the safety filter rejects and on an exception of the data source it returns
  \<open>pd.DataFrame()\<close>, which has no column and no row and whose \<open>empty\<close> attribute is
  true.  A query that ran returns the frame of the data source, columns included; when it
  matched no row its \<open>empty\<close> attribute is true as well, so the failures and the zero-row
  success agree on the \<open>empty\<close> attribute and on nothing more.
\<close>

theorem execute_sql_query_failures_empty:
  "(length (str_strip (clean_sql_query sql)) < 5
      \<longrightarrow> fst (execute_sql_query drv sql h) = DataFrame)
   \<and> (\<not> is_safe_query (clean_sql_query sql)
      \<longrightarrow> fst (execute_sql_query drv sql h) = DataFrame)
   \<and> (drv h (clean_sql_query sql) = Inl msg
      \<longrightarrow> fst (execute_sql_query drv sql h) = DataFrame)
   \<and> df_empty DataFrame
   \<and> df_columns DataFrame = [] \<and> df_rows DataFrame = []
   \<and> (5 \<le> length (str_strip (clean_sql_query sql)) \<and> is_safe_query (clean_sql_query sql)
       \<and> drv h (clean_sql_query sql) = Inr df
      \<longrightarrow> fst (execute_sql_query drv sql h) = df \<and> (df_rows df = [] \<longrightarrow> df_empty df))
   \<and> (fst (execute_sql_query drv sql h) = DataFrame
       \<or> drv h (clean_sql_query sql) = Inr (fst (execute_sql_query drv sql h)))"
proof (intro conjI impI)
  assume "length (str_strip (clean_sql_query sql)) < 5"
  then show "fst (execute_sql_query drv sql h) = DataFrame"
    by (simp add: execute_sql_query_short)
next
  assume "\<not> is_safe_query (clean_sql_query sql)"
  then show "fst (execute_sql_query drv sql h) = DataFrame"
    using execute_sql_query_cases [of drv sql h] by auto
next
  assume "drv h (clean_sql_query sql) = Inl msg"
  then show "fst (execute_sql_query drv sql h) = DataFrame"
    using execute_sql_query_cases [of drv sql h] by auto
next
  show "df_empty DataFrame" by (rule df_empty_DataFrame)
next
  show "df_columns DataFrame = []" by (simp add: DataFrame_def)
next
  show "df_rows DataFrame = []" by (simp add: DataFrame_def)
next
  assume "5 \<le> length (str_strip (clean_sql_query sql)) \<and> is_safe_query (clean_sql_query sql)
       \<and> drv h (clean_sql_query sql) = Inr df"
  then show "fst (execute_sql_query drv sql h) = df" by (simp add: execute_sql_query_run)
next
  assume "df_rows df = []"
  then show "df_empty df" by (simp add: df_empty_def)
next
  show "fst (execute_sql_query drv sql h) = DataFrame
       \<or> drv h (clean_sql_query sql) = Inr (fst (execute_sql_query drv sql h))"
    using execute_sql_query_cases [of drv sql h] by auto
qed

text \<open>
  Witness for the amended C9: a rejected query, a short query, a query on which the data source
  raises and a query that matches no row all give a frame whose \<open>empty\<close> attribute is true.
\<close>

theorem execute_sql_query_failures_empty_witness:
  "fst (execute_sql_query (\<lambda>h s. Inr \<lparr>df_columns = [''a''], df_rows = []\<rparr>)
          ''DROP TABLE users'' (Path ''db'')) = DataFrame
   \<and> fst (execute_sql_query (\<lambda>h s. Inr \<lparr>df_columns = [''a''], df_rows = []\<rparr>)
          ''SEL'' (Path ''db'')) = DataFrame
   \<and> fst (execute_sql_query (\<lambda>h s. Inl ''no such table: t'')
          ''SELECT a FROM t'' (Path ''db'')) = DataFrame
   \<and> df_empty (fst (execute_sql_query (\<lambda>h s. Inr \<lparr>df_columns = [''a''], df_rows = []\<rparr>)
          ''SELECT a FROM t'' (Path ''db'')))"
proof -
  have c1: "clean_sql_query ''DROP TABLE users'' = ''DROP TABLE users''" by code_simp
  have u1: "\<not> is_safe_query ''DROP TABLE users''" by code_simp
  have c2: "length (str_strip (clean_sql_query ''SEL'')) < 5" by code_simp
  have c3: "clean_sql_query ''SELECT a FROM t'' = ''SELECT a FROM t''" by code_simp
  have l3: "5 \<le> length (str_strip ''SELECT a FROM t'')" by code_simp
  have s3: "is_safe_query ''SELECT a FROM t''" by code_simp
  from execute_sql_query_failures_empty
         [of "''DROP TABLE users''" "\<lambda>h s. Inr \<lparr>df_columns = [''a''], df_rows = []\<rparr>"
             "Path ''db''" "''x''" "DataFrame"] c1 u1
  have a: "fst (execute_sql_query (\<lambda>h s. Inr \<lparr>df_columns = [''a''], df_rows = []\<rparr>)
          ''DROP TABLE users'' (Path ''db'')) = DataFrame" by simp
  from execute_sql_query_failures_empty
         [of "''SEL''" "\<lambda>h s. Inr \<lparr>df_columns = [''a''], df_rows = []\<rparr>"
             "Path ''db''" "''x''" "DataFrame"] c2
  have b: "fst (execute_sql_query (\<lambda>h s. Inr \<lparr>df_columns = [''a''], df_rows = []\<rparr>)
          ''SEL'' (Path ''db'')) = DataFrame" by simp
  from execute_sql_query_failures_empty
         [of "''SELECT a FROM t''" "\<lambda>h s. Inl ''no such table: t''"
             "Path ''db''" "''no such table: t''" "DataFrame"]
  have c: "fst (execute_sql_query (\<lambda>h s. Inl ''no such table: t'')
          ''SELECT a FROM t'' (Path ''db'')) = DataFrame" by simp
  from execute_sql_query_failures_empty
         [of "''SELECT a FROM t''" "\<lambda>h s. Inr \<lparr>df_columns = [''a''], df_rows = []\<rparr>"
             "Path ''db''" "''x''" "\<lparr>df_columns = [''a''], df_rows = []\<rparr>"] c3 l3 s3
  have d: "df_empty (fst (execute_sql_query (\<lambda>h s. Inr \<lparr>df_columns = [''a''], df_rows = []\<rparr>)
          ''SELECT a FROM t'' (Path ''db'')))" by simp
  from a b c d show ?thesis by simp
qed

section \<open>Properties of the query pipeline\<close>

lemma show_fallback_suggestions_events:
  "BackendQuery h s \<notin> set (show_fallback_suggestions st)"
  "ModelCall n \<notin> set (show_fallback_suggestions st)"
  by (simp_all add: show_fallback_suggestions_def)

lemma handle_empty_results_backend_safe:
  assumes "BackendQuery h s \<in> set (handle_empty_results gw drv st question prompt table_info)"
  shows "is_safe_query s"
proof (cases "gw question prompt table_info 2")
  case None
  with assms show ?thesis
    by (simp add: handle_empty_results_def show_fallback_suggestions_events)
next
  case (Some fallback_response)
  obtain fsql fviz freason fins
    where p: "parse_openai_response fallback_response = (fsql, fviz, freason, fins)"
    by (cases "parse_openai_response fallback_response") auto
  obtain fdf evs where e: "execute_sql_query drv fsql (ss_db_engine st) = (fdf, evs)"
    by (cases "execute_sql_query drv fsql (ss_db_engine st)") auto
  from assms Some p e have "BackendQuery h s \<in> set evs"
    by (auto simp: handle_empty_results_def show_fallback_suggestions_events
             split: if_splits)
  with e have "BackendQuery h s \<in> set (snd (execute_sql_query drv fsql (ss_db_engine st)))"
    by simp
  then show ?thesis by (auto dest: execute_sql_query_backend_safe)
qed

lemma handle_empty_results_model_call:
  "ModelCall 2 \<in> set (handle_empty_results gw drv st question prompt table_info)"
  by (simp add: handle_empty_results_def)

lemma process_ai_response_no_sql:
  assumes "parse_openai_response response = ([], viz_type, viz_reason, insights)"
  shows "process_ai_response gw drv st question response prompt table_info
           = [StatusIndicator ''error''
                ''Could not extract a valid SQL query from AI response.'']"
  using assms by (simp add: process_ai_response_def)

lemma process_ai_response_unfold:
  assumes "parse_openai_response response = (sql_query, viz_type, viz_reason, insights)"
    and "sql_query \<noteq> []"
  shows "process_ai_response gw drv st question response prompt table_info
           = StSubheader ''Generated SQL Query'' # StCode sql_query
             # snd (execute_sql_query drv sql_query (ss_db_engine st))
             @ (if \<not> df_empty (fst (execute_sql_query drv sql_query (ss_db_engine st)))
                then StSubheader ''Query Results & Visualization''
                     # Visualization (fst (execute_sql_query drv sql_query (ss_db_engine st)))
                         viz_type viz_reason question
                     # (if insights \<noteq> [] then [InfoBox ''AI Insights'' insights] else [])
                     @ [QueryStatistics (fst (execute_sql_query drv sql_query (ss_db_engine st)))
                          sql_query]
                else handle_empty_results gw drv st question prompt table_info)"
  using assms
  by (cases "execute_sql_query drv sql_query (ss_db_engine st)")
     (simp add: process_ai_response_def)

lemma process_ai_response_backend_safe:
  assumes "BackendQuery h s \<in> set (process_ai_response gw drv st question response prompt table_info)"
  shows "is_safe_query s"
proof -
  obtain sql_query viz_type viz_reason insights
    where p: "parse_openai_response response = (sql_query, viz_type, viz_reason, insights)"
    by (cases "parse_openai_response response") auto
  show ?thesis
  proof (cases "sql_query = []")
    case True
    with assms p show ?thesis by (simp add: process_ai_response_no_sql)
  next
    case False
    from assms have "BackendQuery h s \<in> set (snd (execute_sql_query drv sql_query (ss_db_engine st)))
        \<or> BackendQuery h s \<in> set (handle_empty_results gw drv st question prompt table_info)"
      unfolding process_ai_response_unfold [OF p False] by (auto split: if_splits)
    then show ?thesis
      by (auto dest: execute_sql_query_backend_safe handle_empty_results_backend_safe)
  qed
qed

lemma process_ai_response_fallback_iff:
  assumes "parse_openai_response response = (sql_query, viz_type, viz_reason, insights)"
  shows "ModelCall 2 \<in> set (process_ai_response gw drv st question response prompt table_info)
         \<longleftrightarrow> sql_query \<noteq> []
             \<and> df_empty (fst (execute_sql_query drv sql_query (ss_db_engine st)))"
proof (cases "sql_query = []")
  case True
  with assms show ?thesis by (simp add: process_ai_response_no_sql)
next
  case False
  show ?thesis
    unfolding process_ai_response_unfold [OF assms False]
    using False
    by (auto simp: execute_sql_query_no_model handle_empty_results_model_call)
qed

lemma df_empty_execute_sql_query_iff:
  "df_empty (fst (execute_sql_query drv sql h)) \<longleftrightarrow>
     length (str_strip (clean_sql_query sql)) < 5
     \<or> \<not> is_safe_query (clean_sql_query sql)
     \<or> (\<exists>msg. drv h (clean_sql_query sql) = Inl msg)
     \<or> (\<exists>df. drv h (clean_sql_query sql) = Inr df \<and> df_empty df)"
proof (cases "length (str_strip (clean_sql_query sql)) < 5")
  case True
  then show ?thesis by (simp add: execute_sql_query_short df_empty_DataFrame)
next
  case long: False
  show ?thesis
  proof (cases "is_safe_query (clean_sql_query sql)")
    case False
    with long show ?thesis by (simp add: execute_sql_query_unsafe df_empty_DataFrame)
  next
    case True
    with long show ?thesis
      by (cases "drv h (clean_sql_query sql)")
         (simp_all add: execute_sql_query_run df_empty_DataFrame)
  qed
qed

lemma parse_unsafe_response:
  "parse_openai_response unsafe_response = (''DROP TABLE users'', ''table'', ''none'', ''none'')"
  unfolding unsafe_response_def by code_simp

lemma parse_safe_response:
  "parse_openai_response safe_response = (''SELECT a FROM t'', ''table'', ''none'', ''none'')"
  unfolding safe_response_def by code_simp

lemma drop_table_rejected:
  "clean_sql_query ''DROP TABLE users'' = ''DROP TABLE users''"
  "\<not> is_safe_query ''DROP TABLE users''"
  "5 \<le> length (str_strip ''DROP TABLE users'')"
  by code_simp+

lemma select_accepted:
  "clean_sql_query ''SELECT a FROM t'' = ''SELECT a FROM t''"
  "is_safe_query ''SELECT a FROM t''"
  "5 \<le> length (str_strip ''SELECT a FROM t'')"
  by code_simp+

text \<open>
  Claim C1, as stated, fails: the response \<open>unsafe_response\<close> carries the query
  \<open>DROP TABLE users\<close>, which the safety filter rejects, and the pipeline goes on to the
  fallback attempt (the language model is called with attempt 2).
\<close>

theorem process_ai_response_unsafe_counterexample:
  "fst (parse_openai_response unsafe_response) = ''DROP TABLE users''
   \<and> \<not> is_safe_query (clean_sql_query ''DROP TABLE users'')
   \<and> ModelCall 2 \<in> set (process_ai_response (\<lambda>question prompt table_info attempt. None)
                            (\<lambda>h sql. Inr DataFrame) example_session
                            ''drop the users'' unsafe_response ''prompt'' ''info'')"
proof -
  have "df_empty (fst (execute_sql_query (\<lambda>h sql. Inr DataFrame) ''DROP TABLE users''
                        (ss_db_engine example_session)))"
    unfolding df_empty_execute_sql_query_iff by (simp add: drop_table_rejected)
  then show ?thesis
    unfolding process_ai_response_fallback_iff [OF parse_unsafe_response]
    by (simp add: parse_unsafe_response drop_table_rejected)
qed

text \<open>
  Claim C1, amended.  Every query sent to the data source during a run of the pipeline
  is one the safety filter accepts, so the data source is never invoked for a rejected
  query.  When the filter rejects the generated query (of 5 characters or more), the
  rejection is reported as an error, no query is sent, and the pipeline goes on with the
  fallback attempt as it does for an empty result: there is no separate terminal state.
\<close>

theorem process_ai_response_rejected_not_executed:
  "(BackendQuery h s \<in> set (process_ai_response gw drv st question response prompt table_info)
      \<longrightarrow> is_safe_query s)
   \<and> (parse_openai_response response = (sql_query, viz_type, viz_reason, insights)
       \<and> sql_query \<noteq> [] \<and> 5 \<le> length (str_strip (clean_sql_query sql_query))
       \<and> \<not> is_safe_query (clean_sql_query sql_query)
      \<longrightarrow> process_ai_response gw drv st question response prompt table_info
            = [StSubheader ''Generated SQL Query'', StCode sql_query,
               StError ''Query contains potentially unsafe operations'']
              @ handle_empty_results gw drv st question prompt table_info)"
proof (intro conjI impI)
  assume "BackendQuery h s \<in> set (process_ai_response gw drv st question response prompt table_info)"
  then show "is_safe_query s" by (rule process_ai_response_backend_safe)
next
  assume a: "parse_openai_response response = (sql_query, viz_type, viz_reason, insights)
       \<and> sql_query \<noteq> [] \<and> 5 \<le> length (str_strip (clean_sql_query sql_query))
       \<and> \<not> is_safe_query (clean_sql_query sql_query)"
  then have p: "parse_openai_response response = (sql_query, viz_type, viz_reason, insights)"
    and n: "sql_query \<noteq> []" by simp_all
  from a have "execute_sql_query drv sql_query (ss_db_engine st)
      = (DataFrame, [StError ''Query contains potentially unsafe operations''])"
    by (simp add: execute_sql_query_unsafe)
  then show "process_ai_response gw drv st question response prompt table_info
            = [StSubheader ''Generated SQL Query'', StCode sql_query,
               StError ''Query contains potentially unsafe operations'']
              @ handle_empty_results gw drv st question prompt table_info"
    unfolding process_ai_response_unfold [OF p n] by (simp add: df_empty_DataFrame)
qed

text \<open>
  Witness for the amended C1: on \<open>unsafe_response\<close> no query reaches the data source,
  and the run is the display of the query, the error and the fallback attempt.
\<close>

theorem process_ai_response_rejected_not_executed_witness:
  "process_ai_response (\<lambda>question prompt table_info attempt. None)
       (\<lambda>h sql. Inr DataFrame) example_session ''drop the users'' unsafe_response
       ''prompt'' ''info''
     = [StSubheader ''Generated SQL Query'', StCode ''DROP TABLE users'',
        StError ''Query contains potentially unsafe operations'']
       @ handle_empty_results (\<lambda>question prompt table_info attempt. None)
           (\<lambda>h sql. Inr DataFrame) example_session ''drop the users'' ''prompt'' ''info''
   \<and> BackendQuery (Path ''data.db'') ''DROP TABLE users''
       \<notin> set (process_ai_response (\<lambda>question prompt table_info attempt. None)
                 (\<lambda>h sql. Inr DataFrame) example_session ''drop the users'' unsafe_response
                 ''prompt'' ''info'')"
  using process_ai_response_rejected_not_executed
          [of "Path ''data.db''" "''DROP TABLE users''"
              "\<lambda>question prompt table_info attempt. None" "\<lambda>h sql. Inr DataFrame"
              example_session "''drop the users''" unsafe_response "''prompt''" "''info''"
              "''DROP TABLE users''" "''table''" "''none''" "''none''"]
        parse_unsafe_response drop_table_rejected
  by auto

text \<open>
  Claim C2, as stated, fails: the query of \<open>safe_response\<close> passes the safety filter,
  the data source raises an error on it, and the fallback attempt is made all the same.
\<close>

theorem process_ai_response_error_counterexample:
  "fst (parse_openai_response safe_response) = ''SELECT a FROM t''
   \<and> is_safe_query (clean_sql_query ''SELECT a FROM t'')
   \<and> ModelCall 2 \<in> set (process_ai_response (\<lambda>question prompt table_info attempt. None)
                            (\<lambda>h sql. Inl ''no such table: t'') example_session
                            ''show a'' safe_response ''prompt'' ''info'')"
proof -
  have "df_empty (fst (execute_sql_query (\<lambda>h sql. Inl ''no such table: t'') ''SELECT a FROM t''
                        (ss_db_engine example_session)))"
    unfolding df_empty_execute_sql_query_iff by simp
  then show ?thesis
    unfolding process_ai_response_fallback_iff [OF parse_safe_response]
    by (simp add: parse_safe_response select_accepted)
qed

text \<open>
  Claim C2, amended.  The fallback attempt is made exactly when a query was extracted and
  \<open>execute_sql_query\<close> returns an empty frame for it: the query is shorter than 5
  characters, or the safety filter rejects it, or the data source raises an error, or the
  data source returns an empty frame.  When the data source raises an error on an accepted
  query, the error is reported and the fallback attempt follows.
\<close>

theorem process_ai_response_fallback_trigger:
  "(parse_openai_response response = (sql_query, viz_type, viz_reason, insights)
      \<longrightarrow> (ModelCall 2 \<in> set (process_ai_response gw drv st question response prompt table_info)
           \<longleftrightarrow> sql_query \<noteq> []
               \<and> (length (str_strip (clean_sql_query sql_query)) < 5
                  \<or> \<not> is_safe_query (clean_sql_query sql_query)
                  \<or> (\<exists>msg. drv (ss_db_engine st) (clean_sql_query sql_query) = Inl msg)
                  \<or> (\<exists>df. drv (ss_db_engine st) (clean_sql_query sql_query) = Inr df
                          \<and> df_empty df))))
   \<and> (parse_openai_response response = (sql_query, viz_type, viz_reason, insights)
       \<and> sql_query \<noteq> [] \<and> 5 \<le> length (str_strip (clean_sql_query sql_query))
       \<and> is_safe_query (clean_sql_query sql_query)
       \<and> drv (ss_db_engine st) (clean_sql_query sql_query) = Inl msg
      \<longrightarrow> process_ai_response gw drv st question response prompt table_info
            = [StSubheader ''Generated SQL Query'', StCode sql_query,
               BackendQuery (ss_db_engine st) (clean_sql_query sql_query)]
              @ handle_query_error msg (clean_sql_query sql_query)
              @ handle_empty_results gw drv st question prompt table_info)"
proof (intro conjI impI)
  assume p: "parse_openai_response response = (sql_query, viz_type, viz_reason, insights)"
  show "ModelCall 2 \<in> set (process_ai_response gw drv st question response prompt table_info)
           \<longleftrightarrow> sql_query \<noteq> []
               \<and> (length (str_strip (clean_sql_query sql_query)) < 5
                  \<or> \<not> is_safe_query (clean_sql_query sql_query)
                  \<or> (\<exists>msg. drv (ss_db_engine st) (clean_sql_query sql_query) = Inl msg)
                  \<or> (\<exists>df. drv (ss_db_engine st) (clean_sql_query sql_query) = Inr df
                          \<and> df_empty df))"
    unfolding process_ai_response_fallback_iff [OF p] df_empty_execute_sql_query_iff ..
next
  assume a: "parse_openai_response response = (sql_query, viz_type, viz_reason, insights)
       \<and> sql_query \<noteq> [] \<and> 5 \<le> length (str_strip (clean_sql_query sql_query))
       \<and> is_safe_query (clean_sql_query sql_query)
       \<and> drv (ss_db_engine st) (clean_sql_query sql_query) = Inl msg"
  then have p: "parse_openai_response response = (sql_query, viz_type, viz_reason, insights)"
    and n: "sql_query \<noteq> []" by simp_all
  from a have "execute_sql_query drv sql_query (ss_db_engine st)
      = (DataFrame, BackendQuery (ss_db_engine st) (clean_sql_query sql_query)
                    # handle_query_error msg (clean_sql_query sql_query))"
    by (simp add: execute_sql_query_run)
  then show "process_ai_response gw drv st question response prompt table_info
            = [StSubheader ''Generated SQL Query'', StCode sql_query,
               BackendQuery (ss_db_engine st) (clean_sql_query sql_query)]
              @ handle_query_error msg (clean_sql_query sql_query)
              @ handle_empty_results gw drv st question prompt table_info"
    unfolding process_ai_response_unfold [OF p n] by (simp add: df_empty_DataFrame)
qed

text \<open>
  Witness for the amended C2: on \<open>safe_response\<close> the fallback attempt is made when the
  data source raises, and is not made when the data source returns a row.
\<close>

theorem process_ai_response_fallback_trigger_witness:
  "ModelCall 2 \<in> set (process_ai_response (\<lambda>question prompt table_info attempt. None)
                          (\<lambda>h sql. Inl ''no such table: t'') example_session
                          ''show a'' safe_response ''prompt'' ''info'')
   \<and> ModelCall 2 \<notin> set (process_ai_response (\<lambda>question prompt table_info attempt. None)
                          (\<lambda>h sql. Inr \<lparr>df_columns = [''a''], df_rows = [[''1'']]\<rparr>)
                          example_session ''show a'' safe_response ''prompt'' ''info'')"
  using process_ai_response_fallback_trigger
          [of safe_response "''SELECT a FROM t''" "''table''" "''none''" "''none''"
              "\<lambda>question prompt table_info attempt. None"
              "\<lambda>h sql. Inl ''no such table: t''" example_session "''show a''"
              "''prompt''" "''info''" "''x''"]
        process_ai_response_fallback_trigger
          [of safe_response "''SELECT a FROM t''" "''table''" "''none''" "''none''"
              "\<lambda>question prompt table_info attempt. None"
              "\<lambda>h sql. Inr \<lparr>df_columns = [''a''], df_rows = [[''1'']]\<rparr>" example_session
              "''show a''" "''prompt''" "''info''" "''x''"]
        parse_safe_response select_accepted
  by (simp add: df_empty_def)

section \<open>Properties of the response parser\<close>




















section \<open>Queries that reach the data source hold one statement\<close>

text \<open>
  The two gap patterns of the safety filter do not look across a line feed.  The text
  that \<open>execute_sql_query\<close> hands to the filter has none: \<open>clean_sql_query\<close> joins the
  words of the query with single spaces.  So a query that reaches the data source has no
  semicolon and no UNION followed anywhere by SELECT.
\<close>

lemma words_from_no_space:
  assumes "\<forall>c \<in> set cur. \<not> py_isspace c" and "w \<in> set (words_from cur s)"
  shows "\<forall>c \<in> set w. \<not> py_isspace c"
  using assms
proof (induction s arbitrary: cur)
  case Nil
  then show ?case by (auto split: if_splits)
next
  case (Cons a s)
  show ?case
  proof (cases "py_isspace a")
    case True
    with Cons.prems have "w = cur \<or> w \<in> set (words_from [] s)" by (auto split: if_splits)
    then show ?thesis using Cons.prems(1) Cons.IH [of "[]"] by auto
  next
    case False
    with Cons.prems have "w \<in> set (words_from (cur @ [a]) s)" by simp
    moreover from False Cons.prems(1) have "\<forall>c \<in> set (cur @ [a]). \<not> py_isspace c" by auto
    ultimately show ?thesis using Cons.IH [of "cur @ [a]"] by blast
  qed
qed

lemma set_str_join: "set (str_join sep ws) \<subseteq> set sep \<union> \<Union> (set ` set ws)"
  by (induction sep ws rule: str_join.induct) auto

lemma clean_sql_query_no_newline: "newline \<notin> set (clean_sql_query sql)"
proof
  assume a: "newline \<in> set (clean_sql_query sql)"
  have sp: "py_isspace newline" by (simp add: py_isspace_def newline_def)
  from a obtain s where "newline \<in> set (str_join '' '' (str_split s))"
    by (auto simp: clean_sql_query_def Let_def split: if_splits)
  then have "newline \<in> set '' '' \<union> \<Union> (set ` set (str_split s))"
    using set_str_join by blast
  then obtain w where "w \<in> set (words_from [] s)" "newline \<in> set w"
    by (auto simp: str_split_def newline_def)
  with words_from_no_space [of "[]" w s] sp show False by auto
qed

lemma execute_sql_query_backend_one_statement:
  assumes "BackendQuery h' s \<in> set (snd (execute_sql_query drv sql h))"
  shows "str_strip (str_upper s) \<noteq> pre @ '';'' @ mid @ ''SELECT'' @ post"
    and "str_strip (str_upper s) \<noteq> pre @ ''UNION'' @ mid @ ''SELECT'' @ post"
proof -
  from execute_sql_query_backend_safe [OF assms]
  have s: "s = clean_sql_query sql" and safe: "is_safe_query s" by blast+
  from s have nl: "newline \<notin> set s" by (simp add: clean_sql_query_no_newline)
  from is_safe_query_single_line [OF safe nl]
  show "str_strip (str_upper s) \<noteq> pre @ '';'' @ mid @ ''SELECT'' @ post"
    and "str_strip (str_upper s) \<noteq> pre @ ''UNION'' @ mid @ ''SELECT'' @ post"
    by blast+
qed

end
